theory Spec2Isabelle
  imports Main "HOL-Library.Sublist" "HOL-Library.AList" "HOL-Library.Monad_Syntax"
begin

section \<open>Python strings\<close>

text \<open>
  A Python \<open>str\<close> is modelled as a \<^typ>\<open>string\<close>; a \<^typ>\<open>char\<close> stands for a code point
  below 256. The character classes below are those of Python 3 on that range:
  \<open>\w\<close> of the \<open>re\<close> module (alphanumeric code points and the underscore) and the white
  space that \<open>str.strip()\<close> removes.
\<close>

definition word_char :: "char \<Rightarrow> bool" where
  "word_char c =
     (let n = (of_char c :: nat) in
        (48 \<le> n \<and> n \<le> 57) \<or> (65 \<le> n \<and> n \<le> 90) \<or> n = 95 \<or> (97 \<le> n \<and> n \<le> 122) \<or>
        n = 170 \<or> n = 178 \<or> n = 179 \<or> n = 181 \<or> n = 185 \<or> n = 186 \<or>
        (188 \<le> n \<and> n \<le> 190) \<or> (192 \<le> n \<and> n \<le> 214) \<or> (216 \<le> n \<and> n \<le> 246) \<or>
        248 \<le> n)"

definition isspace :: "char \<Rightarrow> bool" where
  "isspace c =
     (let n = (of_char c :: nat) in
        (9 \<le> n \<and> n \<le> 13) \<or> (28 \<le> n \<and> n \<le> 32) \<or> n = 133 \<or> n = 160)"

text \<open>\<open>s.strip()\<close>: white space removed at both ends.\<close>

definition strip :: "string \<Rightarrow> string" where
  "strip s = rev (dropWhile isspace (rev (dropWhile isspace s)))"

text \<open>\<open>s.startswith(p)\<close>, \<open>s.endswith(p)\<close> and \<open>p in s\<close>.\<close>

fun startswith :: "string \<Rightarrow> string \<Rightarrow> bool" where
  "startswith s [] = True"
| "startswith [] (p # ps) = False"
| "startswith (c # cs) (p # ps) = (c = p \<and> startswith cs ps)"

definition endswith :: "string \<Rightarrow> string \<Rightarrow> bool" where
  "endswith s p = startswith (rev s) (rev p)"

fun contains :: "string \<Rightarrow> string \<Rightarrow> bool" where
  "contains p [] = (p = [])"
| "contains p (c # cs) = (startswith (c # cs) p \<or> contains p cs)"

text \<open>
  \<open>s.replace(old, new)\<close>: every occurrence of \<open>old\<close>, found from left to right
  without overlap, is replaced; an empty \<open>old\<close> matches before every character and at
  the end. \<open>re.sub\<close> with a pattern that is a literal text does the same.
\<close>

fun replace :: "string \<Rightarrow> string \<Rightarrow> string \<Rightarrow> string" where
  "replace old new [] = (if old = [] then new else [])"
| "replace old new (c # cs) =
     (if old = [] then new @ c # replace old new cs
      else if startswith (c # cs) old
        then new @ replace old new (drop (length old) (c # cs))
        else c # replace old new cs)"

section \<open>The rewriter's rules on one line\<close>

text \<open>
  \<open>re.sub(r'(?<!\w)index(?!\w)', '_index', line)\<close>. The scan goes from left to right;
  the flag tells whether the character before the current position is a word
  character (the look-behind), \<open>not_word_next\<close> is the look-ahead, and
  \<open>index_match\<close> says that the pattern matches at the current position. After a
  match the scan resumes behind the five characters matched, where the character
  before is the \<open>x\<close> of the match.
\<close>

definition not_word_next :: "string \<Rightarrow> bool" where
  "not_word_next s = (case s of [] \<Rightarrow> True | d # _ \<Rightarrow> \<not> word_char d)"

definition index_match :: "bool \<Rightarrow> string \<Rightarrow> bool" where
  "index_match pw s = (\<not> pw \<and> startswith s ''index'' \<and> not_word_next (drop 5 s))"

fun sub_index :: "bool \<Rightarrow> string \<Rightarrow> string" where
  "sub_index pw [] = []"
| "sub_index pw (c # cs) =
     (if index_match pw (c # cs)
        then ''_index'' @ sub_index True (drop 5 (c # cs))
        else c # sub_index (word_char c) cs)"

definition rename_index_column :: "string \<Rightarrow> string" where
  "rename_index_column line = sub_index False line"

text \<open>
  Lines 41 to 50 of \<open>convert_postgres_to_sqlite\<close>: the schema qualifier is removed
  (rule 2), then \<open>SERIAL\<close>, \<open>integer\<close> and \<open>bigint\<close> are replaced (rules 3 and 4) and
  \<open>index\<close> is renamed (rule 5). \<open>rules_3_5\<close> is the part of it that starts after rule 2.
\<close>

definition rules_3_5 :: "string \<Rightarrow> string" where
  "rules_3_5 line =
     rename_index_column
       (replace ''bigint'' ''INTEGER''
         (replace ''integer'' ''INTEGER''
           (replace ''SERIAL'' ''INTEGER PRIMARY KEY AUTOINCREMENT'' line)))"

definition rewrite_line :: "string \<Rightarrow> string" where
  "rewrite_line line = rules_3_5 (replace ''public.'' [] line)"

text \<open>The test of line 38 on the line as read (rule 1), and the test of line 53 on the
  line as rewritten (rule 6); a line that passes either is dropped.\<close>

definition postgres_command :: "string \<Rightarrow> bool" where
  "postgres_command line =
     (startswith line ''SET '' \<or> startswith line ''SELECT pg_catalog.set_config'')"

definition table_option :: "string \<Rightarrow> bool" where
  "table_option line = (contains ''WITH ('' line \<or> contains ''OIDS='' line)"

section \<open>The rewriter's regular expressions\<close>

text \<open>A literal piece of a pattern, and \<open>\w+\<close> followed by a character that is no word
  character (so the greedy run is the only way to match).\<close>

definition literal :: "string \<Rightarrow> string \<Rightarrow> string option" where
  "literal p s = (if startswith s p then Some (drop (length p) s) else None)"

definition word_run :: "string \<Rightarrow> (string \<times> string) option" where
  "word_run s =
     (if takeWhile word_char s = [] then None
      else Some (takeWhile word_char s, dropWhile word_char s))"

text \<open>\<open>re.search(r'CREATE TABLE (\w+)', line)\<close>: group 1 of the leftmost match.\<close>

fun search_create_table :: "string \<Rightarrow> string option" where
  "search_create_table [] = None"
| "search_create_table (c # cs) =
     (case do { r \<leftarrow> literal ''CREATE TABLE '' (c # cs); word_run r } of
        Some (table_name, _) \<Rightarrow> Some table_name
      | None \<Rightarrow> search_create_table cs)"

text \<open>
  \<open>re.search(r'ALTER TABLE (\w+) ADD CONSTRAINT \w+ PRIMARY KEY \((.*?)\)', buffer)\<close>:
  the two groups of the leftmost match. The lazy \<open>.*?\<close> stops at the first closing
  parenthesis, and \<open>.\<close> does not match a newline.
\<close>

definition not_paren_nl :: "char \<Rightarrow> bool" where
  "not_paren_nl c = (c \<noteq> CHR '')'' \<and> c \<noteq> CHR 0x0A)"

definition match_primary_key :: "string \<Rightarrow> (string \<times> string) option" where
  "match_primary_key s =
     do {
       r1 \<leftarrow> literal ''ALTER TABLE '' s;
       (table_name, r2) \<leftarrow> word_run r1;
       r3 \<leftarrow> literal '' ADD CONSTRAINT '' r2;
       (constraint_name, r4) \<leftarrow> word_run r3;
       r5 \<leftarrow> literal '' PRIMARY KEY ('' r4;
       _ \<leftarrow> literal '')'' (dropWhile not_paren_nl r5);
       Some (table_name, takeWhile not_paren_nl r5)
     }"

fun search_primary_key :: "string \<Rightarrow> (string \<times> string) option" where
  "search_primary_key [] = match_primary_key []"
| "search_primary_key (c # cs) =
     (case match_primary_key (c # cs) of
        Some groups \<Rightarrow> Some groups
      | None \<Rightarrow> search_primary_key cs)"

section \<open>The rewriter\<close>

text \<open>
  \<open>outfile\<close> is a buffered text file. \<open>outfile.write\<close> puts the text into Python's
  buffer (\<open>pending\<close>), and Python writes a part of the buffer to the file on disk
  (\<open>disk\<close>) when it sees fit; the patch-back of lines 88 to 102 opens the file anew
  and so sees what is on disk, not what is pending. When Python writes is not fixed by
  the source (it depends on the sizes of the writes, on the version and on the file
  system), so it is a parameter of the model: \<open>buffering ws p\<close> is the number of
  characters of the pending text \<open>p\<close> that go to the file at the end of the write that
  made the buffer \<open>p\<close>, \<open>ws\<close> being the texts written so far. The field \<open>outfile\<close> keeps
  these texts. The pending text goes to the end of the file: the patch-back leaves the
  file with the text it has read whenever it does not raise
  (\<open>patch_create_table_writes\<close> below), so the position of \<open>outfile\<close> stays the end of
  the file.

  \<open>create_table_statements\<close> is a Python dict, whose keys keep the order of their
  first insertion: an association list, with \<open>AList.update\<close> for \<open>d[k] = v\<close>. The keys
  of a dict are unique, so the entry of \<open>list(d.keys())[-1]\<close> is the last entry of the
  list. \<open>console\<close> is what the function has printed.
\<close>

datatype py_error = AttributeError | TypeError

type_synonym buffering = "string list \<Rightarrow> string \<Rightarrow> nat"

record conv_state =
  create_table_statements :: "(string \<times> string list) list"
  alter_table_buffer :: string
  outfile :: "string list"
  pending :: string
  disk :: string
  console :: "string list"

text \<open>\<open>outfile.write(w)\<close>, and the end of the \<open>with\<close> statement, which closes \<open>outfile\<close>
  and so writes all that is pending.\<close>

definition write_outfile :: "buffering \<Rightarrow> conv_state \<Rightarrow> string \<Rightarrow> conv_state" where
  "write_outfile buffering s w =
     (let ws = outfile s @ [w];
          p = pending s @ w;
          n = min (buffering ws p) (length p)
      in s\<lparr>outfile := ws, pending := drop n p, disk := disk s @ take n p\<rparr>)"

definition close_outfile :: "conv_state \<Rightarrow> conv_state" where
  "close_outfile s = s\<lparr>pending := [], disk := disk s @ pending s\<rparr>"

text \<open>\<open>readlines()\<close>: the content of the file cut behind every newline. The lines
  written were read in text mode themselves, so a newline is the only line end in
  them.\<close>

fun lines_from :: "string \<Rightarrow> string \<Rightarrow> string list" where
  "lines_from acc [] = (if acc = [] then [] else [acc])"
| "lines_from acc (c # cs) =
     (if c = CHR 0x0A then (acc @ [c]) # lines_from [] cs else lines_from (acc @ [c]) cs)"

definition readlines :: "string \<Rightarrow> string list" where
  "readlines content = lines_from [] content"

text \<open>
  Lines 92 to 102, the loop that writes the file anew from the lines read at line 89;
  the result is the text written, which is on disk when \<open>temp_file\<close> is closed.
  \<open>lines\<close> is a list, and \<open>next(lines)\<close> on a list raises \<open>TypeError\<close> (a list is not an
  iterator). So the \<open>while\<close> loop of line 96 raises as soon as its body is entered, and
  the statements behind \<open>next\<close>, the only ones that use \<open>columns\<close>, never run.
\<close>

fun patch_create_table :: "string \<Rightarrow> string \<Rightarrow> string list \<Rightarrow> py_error + string" where
  "patch_create_table table_name columns [] = Inr []"
| "patch_create_table table_name columns (temp_line # lines) =
     (if startswith (strip temp_line) (''CREATE TABLE '' @ table_name)
      then
        (if \<not> endswith (strip temp_line) '');'' then Inl TypeError
         else map_sum id ((@) temp_line) (patch_create_table table_name columns lines))
      else map_sum id ((@) temp_line) (patch_create_table table_name columns lines))"

text \<open>Lines 78 to 81: the line is joined to the alter-buffer.\<close>

definition extend_alter_buffer :: "string \<Rightarrow> string \<Rightarrow> string" where
  "extend_alter_buffer buffer line =
     (if buffer \<noteq> [] then buffer @ '' '' @ strip line else strip line)"

text \<open>Lines 56 to 114: what the loop does with a line that the rules have rewritten.\<close>

definition emit_line :: "buffering \<Rightarrow> conv_state \<Rightarrow> string \<Rightarrow> py_error + conv_state" where
  "emit_line buffering s line =
     (if startswith (strip line) ''CREATE TABLE'' then
        (case search_create_table line of
           None \<Rightarrow> Inl AttributeError
         | Some table_name \<Rightarrow>
             Inr (s\<lparr>create_table_statements :=
                      AList.update table_name [line] (create_table_statements s)\<rparr>))
      else if startswith (strip line) '');'' \<and> create_table_statements s \<noteq> [] then
        (case last (create_table_statements s) of (table_name, buf) \<Rightarrow>
           Inr (write_outfile buffering
                  (s\<lparr>create_table_statements := butlast (create_table_statements s)\<rparr>)
                  (concat (buf @ [line]))))
      else if create_table_statements s \<noteq> [] then
        (case last (create_table_statements s) of (table_name, buf) \<Rightarrow>
           Inr (s\<lparr>create_table_statements :=
                    butlast (create_table_statements s) @ [(table_name, buf @ [line])]\<rparr>))
      else if startswith (strip line) ''ALTER TABLE'' \<or> alter_table_buffer s \<noteq> [] then
        (let buffer = extend_alter_buffer (alter_table_buffer s) line
         in if CHR '';'' \<in> set line then
              (case search_primary_key buffer of
                 None \<Rightarrow> Inr (s\<lparr>alter_table_buffer := []\<rparr>)
               | Some (table_name, columns) \<Rightarrow>
                   (case patch_create_table table_name columns (readlines (disk s)) of
                      Inl e \<Rightarrow> Inl e
                    | Inr written \<Rightarrow> Inr (s\<lparr>disk := written, alter_table_buffer := []\<rparr>)))
            else Inr (s\<lparr>alter_table_buffer := buffer\<rparr>))
      else if startswith line ''CREATE INDEX'' then
        Inr (write_outfile buffering s (replace '' USING btree'' [] line @ [CHR 0x0A]))
      else Inr (write_outfile buffering s line))"

text \<open>Lines 36 to 114: the body of the loop over the lines of the input file.\<close>

definition convert_step :: "buffering \<Rightarrow> conv_state \<Rightarrow> string \<Rightarrow> py_error + conv_state" where
  "convert_step buffering s line =
     (if postgres_command line then Inr s
      else if table_option (rewrite_line line) then Inr s
      else emit_line buffering s (rewrite_line line))"

fun convert_lines :: "buffering \<Rightarrow> conv_state \<Rightarrow> string list \<Rightarrow> py_error + conv_state" where
  "convert_lines buffering s [] = Inr s"
| "convert_lines buffering s (line # infile) =
     (case convert_step buffering s line of
        Inl e \<Rightarrow> Inl e
      | Inr s' \<Rightarrow> convert_lines buffering s' infile)"

definition initial_conv_state :: conv_state where
  "initial_conv_state =
     \<lparr>create_table_statements = [], alter_table_buffer = [], outfile = [], pending = [],
      disk = [], console = []\<rparr>"

text \<open>The function, given the lines of the input file and the path of the output file;
  \<open>disk\<close> of the result is the output file that it leaves.\<close>

definition convert_postgres_to_sqlite ::
  "buffering \<Rightarrow> string list \<Rightarrow> string \<Rightarrow> py_error + conv_state"
where
  "convert_postgres_to_sqlite buffering infile output_file =
     (case convert_lines buffering initial_conv_state infile of
        Inl e \<Rightarrow> Inl e
      | Inr s \<Rightarrow>
          Inr ((close_outfile s)\<lparr>console := console s @
                 [''Conversion complete! SQLite-compatible SQL saved to '' @ output_file]\<rparr>))"

section \<open>The statement executor\<close>

text \<open>
  The store is a parameter: \<open>execute db command\<close> is \<open>cursor.execute(command)\<close> on the
  store \<open>db\<close>, which gives the store after the statement or raises one of the
  exceptions of \<open>sqlite3\<close>. \<open>IntegrityError\<close> (a constraint is violated) and
  \<open>OperationalError\<close> are two subclasses of \<open>DatabaseError\<close>, neither above the other.
\<close>

datatype sqlite_error =
  OperationalError string
| IntegrityError string
| ProgrammingError string
| DatabaseError string

record 'db import_state =
  db :: 'db
  current_command :: string
  printed :: "string list"

definition command_keywords :: "string list" where
  "command_keywords = [''CREATE TABLE'', ''INSERT INTO'', ''ADD CONSTRAINT'', ''CREATE INDEX'']"

text \<open>
  The \<open>try\<close> statement of lines 150 to 155 and of lines 162 to 167: only
  \<open>sqlite3.OperationalError\<close> is caught and printed, any other exception leaves the
  function; behind a statement that ran or was caught the buffer is reset.
  \<open>command_count\<close> and the report of lines 169 to 173 depend on the wall clock and
  have no effect on the store; they are left out.
\<close>

definition try_execute ::
  "('db \<Rightarrow> string \<Rightarrow> sqlite_error + 'db) \<Rightarrow> 'db import_state \<Rightarrow> sqlite_error + 'db import_state"
where
  "try_execute execute st =
     (case execute (db st) (current_command st) of
        Inr db' \<Rightarrow> Inr (st\<lparr>db := db', current_command := []\<rparr>)
      | Inl (OperationalError e) \<Rightarrow>
          Inr (st\<lparr>printed := printed st @
                   [''Error executing command: '' @ current_command st @
                    [CHR 0x0A] @ ''Error: '' @ e],
                 current_command := []\<rparr>)
      | Inl err \<Rightarrow> Inl err)"

text \<open>Lines 142 to 167: the body of the loop over the lines of the SQL file.\<close>

definition import_step ::
  "('db \<Rightarrow> string \<Rightarrow> sqlite_error + 'db) \<Rightarrow> 'db import_state \<Rightarrow> string
     \<Rightarrow> sqlite_error + 'db import_state"
where
  "import_step execute st raw_line =
     (let line = strip raw_line in
      if line = [] \<or> startswith line ''--'' \<or> startswith line ''/*'' then Inr st
      else
        (case (if list_ex (startswith line) command_keywords \<and> current_command st \<noteq> []
               then try_execute execute st else Inr st) of
           Inl err \<Rightarrow> Inl err
         | Inr st1 \<Rightarrow>
             (let st2 = st1\<lparr>current_command := current_command st1 @ line @ '' ''\<rparr>
              in if endswith (current_command st2) '';'' then try_execute execute st2
                 else Inr st2)))"

fun import_loop ::
  "('db \<Rightarrow> string \<Rightarrow> sqlite_error + 'db) \<Rightarrow> 'db import_state \<Rightarrow> string list
     \<Rightarrow> sqlite_error + 'db import_state"
where
  "import_loop execute st [] = Inr st"
| "import_loop execute st (line # f) =
     (case import_step execute st line of
        Inl err \<Rightarrow> Inl err
      | Inr st' \<Rightarrow> import_loop execute st' f)"

text \<open>The function, given the store behind \<open>db_file\<close> and the lines of the SQL file.\<close>

definition import_to_sqlite ::
  "('db \<Rightarrow> string \<Rightarrow> sqlite_error + 'db) \<Rightarrow> string \<Rightarrow> 'db \<Rightarrow> string list
     \<Rightarrow> sqlite_error + 'db import_state"
where
  "import_to_sqlite execute db_file db0 f =
     (case execute db0 ''PRAGMA journal_mode=WAL;'' of
        Inl err \<Rightarrow> Inl err
      | Inr db1 \<Rightarrow>
          (case import_loop execute \<lparr>db = db1, current_command = [], printed = []\<rparr> f of
             Inl err \<Rightarrow> Inl err
           | Inr st \<Rightarrow>
               Inr (st\<lparr>printed := printed st @
                        [''Data imported successfully into '' @ db_file @ ''.'']\<rparr>)))"

subsection \<open>Buffers and stores for the examples\<close>

text \<open>
  A buffer of \<open>limit\<close> characters that is written out as a whole as soon as it holds
  more. The text layer of CPython hands its pending text on when it holds more than
  8192 bytes, so with \<open>flush_above 8192\<close> an output of less stays in the buffer until
  the file is closed.
\<close>

definition flush_above :: "nat \<Rightarrow> buffering" where
  "flush_above limit ws p = (if limit < length p then length p else 0)"

text \<open>A store that keeps the statements it has run, in order.\<close>

definition log_store :: "string list \<Rightarrow> string \<Rightarrow> sqlite_error + string list" where
  "log_store d command = Inr (d @ [command])"



section \<open>Notions for the proofs\<close>

text \<open>
  \<open>clash_free new t\<close>: no non-empty suffix of \<open>t\<close> is a prefix of \<open>new\<close> or has \<open>new\<close> as
  a prefix. A text \<open>c # t\<close> whose first character is not in \<open>new\<close> and whose rest is
  clash free cannot overlap an inserted copy of \<open>new\<close>.
\<close>

fun clash_free :: "string \<Rightarrow> string \<Rightarrow> bool" where
  "clash_free new [] = True"
| "clash_free new (c # cs) =
     (\<not> prefix (c # cs) new \<and> \<not> prefix new (c # cs) \<and> clash_free new cs)"

section \<open>Facts about the string functions\<close>

lemma startswith_prefix: "startswith s p \<longleftrightarrow> prefix p s"
  by (induction s p rule: startswith.induct) auto

lemma contains_sublist: "contains p s \<longleftrightarrow> sublist p s"
  by (induction s) (auto simp: startswith_prefix sublist_Cons_right)

lemma replace_id: "old \<noteq> [] \<Longrightarrow> \<not> sublist old s \<Longrightarrow> replace old new s = s"
  by (induction s) (auto simp: startswith_prefix sublist_Cons_right)

lemma prefix_append_cases:
  "prefix t (u @ r) \<Longrightarrow> prefix t u \<or> prefix u t"
  by (auto simp: prefix_append)

lemma replace_prefix:
  "old \<noteq> [] \<Longrightarrow> clash_free new t \<Longrightarrow> prefix t (replace old new s) \<Longrightarrow> prefix t s"
proof (induction old new s arbitrary: t rule: replace.induct)
  case (1 old new)
  then show ?case by simp
next
  case (2 old new c cs)
  note ne = \<open>old \<noteq> []\<close> and cf = \<open>clash_free new t\<close>
  show ?case
  proof (cases t)
    case Nil
    then show ?thesis by simp
  next
    case (Cons a t')
    show ?thesis
    proof (cases "startswith (c # cs) old")
      case True
      with "2.prems" have "prefix t (new @ replace old new (drop (length old) (c # cs)))"
        by simp
      then have "prefix t new \<or> prefix new t" by (rule prefix_append_cases)
      with cf Cons show ?thesis by auto
    next
      case False
      with "2.prems" Cons have ac: "a = c" and p: "prefix t' (replace old new cs)" by auto
      from cf Cons have "clash_free new t'" by simp
      from "2.IH"(3)[OF ne False ne this p] have "prefix t' cs" .
      with ac Cons show ?thesis by simp
    qed
  qed
qed

lemma sublist_skip:
  "c \<notin> set u \<Longrightarrow> sublist (c # t) (u @ r) \<Longrightarrow> sublist (c # t) r"
  by (induction u) (auto simp: sublist_Cons_right)

lemma replace_step:
  assumes ne: "old \<noteq> []" and c: "c \<notin> set new" and cf: "clash_free new t"
    and np: "\<not> prefix (c # t) (x # xs)"
    and r: "\<not> sublist (c # t) (replace old new xs)"
  shows "\<not> sublist (c # t) (x # replace old new xs)"
proof -
  have "\<not> prefix (c # t) (x # replace old new xs)"
  proof
    assume "prefix (c # t) (x # replace old new xs)"
    then have "c = x" "prefix t (replace old new xs)" by auto
    with replace_prefix[OF ne cf] have "prefix t xs" by blast
    with \<open>c = x\<close> np show False by simp
  qed
  with r show ?thesis by (simp add: sublist_Cons_right)
qed

lemma replace_preserves:
  "old \<noteq> [] \<Longrightarrow> c \<notin> set new \<Longrightarrow> clash_free new t \<Longrightarrow> \<not> sublist (c # t) s
     \<Longrightarrow> \<not> sublist (c # t) (replace old new s)"
proof (induction old new s rule: replace.induct)
  case (1 old new)
  then show ?case by simp
next
  case (2 old new x xs)
  note ne = \<open>old \<noteq> []\<close> and c = \<open>c \<notin> set new\<close> and cf = \<open>clash_free new t\<close>
    and ns = \<open>\<not> sublist (c # t) (x # xs)\<close>
  show ?case
  proof (cases "startswith (x # xs) old")
    case True
    have "sublist (drop (length old) (x # xs)) (x # xs)" by (rule sublist_drop)
    with ns have "\<not> sublist (c # t) (drop (length old) (x # xs))"
      using sublist_order.order_trans by blast
    from "2.IH"(2)[OF ne True ne c cf this] sublist_skip[OF c]
    have "\<not> sublist (c # t) (new @ replace old new (drop (length old) (x # xs)))"
      by blast
    with True ne show ?thesis by simp
  next
    case False
    from ns have n1: "\<not> sublist (c # t) xs" and np: "\<not> prefix (c # t) (x # xs)"
      by (auto simp: sublist_Cons_right)
    from "2.IH"(3)[OF ne False ne c cf n1] replace_step[OF ne c cf np]
    have "\<not> sublist (c # t) (x # replace old new xs)" by blast
    with False ne show ?thesis by simp
  qed
qed

lemma replace_removes:
  "old = c # t \<Longrightarrow> c \<notin> set new \<Longrightarrow> clash_free new t \<Longrightarrow> \<not> sublist old (replace old new s)"
proof (induction old new s rule: replace.induct)
  case (1 old new)
  then show ?case by simp
next
  case (2 old new x xs)
  note old = \<open>old = c # t\<close> and c = \<open>c \<notin> set new\<close> and cf = \<open>clash_free new t\<close>
  from old have ne: "old \<noteq> []" by simp
  show ?case
  proof (cases "startswith (x # xs) old")
    case True
    from "2.IH"(2)[OF ne True old c cf] sublist_skip[OF c]
    have "\<not> sublist old (new @ replace old new (drop (length old) (x # xs)))"
      unfolding old by blast
    with True ne show ?thesis by simp
  next
    case False
    then have np: "\<not> prefix (c # t) (x # xs)" by (simp add: startswith_prefix old)
    from "2.IH"(3)[OF ne False old c cf] replace_step[OF ne c cf np]
    have "\<not> sublist old (x # replace old new xs)" unfolding old by blast
    with False ne show ?thesis by simp
  qed
qed


lemma sub_index_prefix:
  "CHR ''_'' \<notin> set t \<Longrightarrow> prefix t (sub_index pw s) \<Longrightarrow> prefix t s"
proof (induction pw s arbitrary: t rule: sub_index.induct)
  case (1 pw)
  then show ?case by simp
next
  case (2 pw c cs)
  show ?case
  proof (cases t)
    case Nil
    then show ?thesis by simp
  next
    case (Cons a t')
    show ?thesis
    proof (cases "index_match pw (c # cs)")
      case True
      with "2.prems" Cons show ?thesis by auto
    next
      case False
      with "2.prems" Cons have ac: "a = c" and p: "prefix t' (sub_index (word_char c) cs)"
        by auto
      from "2.prems" Cons have "CHR ''_'' \<notin> set t'" by simp
      from "2.IH"(2)[OF False this p] ac Cons show ?thesis by simp
    qed
  qed
qed

lemma sublist_transfer:
  assumes pre: "\<And>t. suffix t z \<Longrightarrow> prefix t r \<Longrightarrow> prefix t r'"
    and sub: "sublist z r \<Longrightarrow> sublist z r'"
  shows "sublist z (u @ r) \<Longrightarrow> sublist z (u @ r')"
proof (induction u)
  case Nil
  with sub show ?case by simp
next
  case (Cons a u)
  from Cons.prems have "prefix z ((a # u) @ r) \<or> sublist z (u @ r)"
    by (simp add: sublist_Cons_right)
  then show ?case
  proof
    assume "prefix z ((a # u) @ r)"
    then have "prefix z (a # u) \<or> (\<exists>zs. z = (a # u) @ zs \<and> prefix zs r)"
      by (simp only: prefix_append)
    then have "prefix z ((a # u) @ r')"
    proof
      assume "prefix z (a # u)"
      then show ?thesis using prefix_prefix by blast
    next
      assume "\<exists>zs. z = (a # u) @ zs \<and> prefix zs r"
      then obtain zs where z: "z = (a # u) @ zs" and p: "prefix zs r" by blast
      from z have "suffix zs z" by (simp add: suffix_def)
      from pre[OF this p] z show ?thesis by simp
    qed
    then show ?thesis by (rule prefix_imp_sublist)
  next
    assume "sublist z (u @ r)"
    with Cons.IH have "sublist z (u @ r')" .
    then show ?thesis by (simp add: sublist_Cons_right)
  qed
qed

lemma index_split: "startswith s ''index'' \<Longrightarrow> s = ''index'' @ drop 5 s"
proof -
  assume "startswith s ''index''"
  then obtain r where "s = ''index'' @ r" by (auto simp: startswith_prefix prefix_def)
  then show ?thesis by simp
qed

lemma sub_index_sublist:
  "CHR ''_'' \<notin> set z \<Longrightarrow> sublist z (sub_index pw s) \<Longrightarrow> sublist z s"
proof (induction pw s rule: sub_index.induct)
  case (1 pw)
  then show ?case by simp
next
  case (2 pw c cs)
  note z = \<open>CHR ''_'' \<notin> set z\<close>
  have suf: "CHR ''_'' \<notin> set t" if "suffix t z" for t
    using that z by (auto simp: suffix_def)
  show ?case
  proof (cases "index_match pw (c # cs)")
    case True
    let ?rest = "drop 5 (c # cs)"
    from True have s: "c # cs = ''index'' @ ?rest"
      using index_split[of "c # cs"] by (simp only: index_match_def)
    from True "2.prems" have "sublist z (CHR ''_'' # ''index'' @ sub_index True ?rest)"
      by simp
    then have "prefix z (CHR ''_'' # ''index'' @ sub_index True ?rest)
                 \<or> sublist z (''index'' @ sub_index True ?rest)"
      by (simp only: sublist_Cons_right)
    then have "sublist z (''index'' @ ?rest)"
    proof
      assume "prefix z (CHR ''_'' # ''index'' @ sub_index True ?rest)"
      with z have "z = []" by (cases z) auto
      then show ?thesis by simp
    next
      assume a: "sublist z (''index'' @ sub_index True ?rest)"
      show ?thesis
      proof (rule sublist_transfer[OF _ _ a])
        fix t assume "suffix t z" "prefix t (sub_index True ?rest)"
        then show "prefix t ?rest" using sub_index_prefix suf by blast
      next
        assume "sublist z (sub_index True ?rest)"
        with "2.IH"(1)[OF True z] show "sublist z ?rest" .
      qed
    qed
    with s show ?thesis by simp
  next
    case False
    with "2.prems" have a: "sublist z ([c] @ sub_index (word_char c) cs)" by simp
    have "sublist z ([c] @ cs)"
    proof (rule sublist_transfer[OF _ _ a])
      fix t assume "suffix t z" "prefix t (sub_index (word_char c) cs)"
      then show "prefix t cs" using sub_index_prefix suf by blast
    next
      assume "sublist z (sub_index (word_char c) cs)"
      with "2.IH"(2)[OF False z] show "sublist z cs" .
    qed
    then show ?thesis by simp
  qed
qed

lemma sub_index_after_word: "sub_index True (c # cs) = c # sub_index (word_char c) cs"
  by (simp add: index_match_def)

lemma not_word_next_sub_index: "not_word_next (sub_index True r) = not_word_next r"
  by (cases r) (simp_all add: not_word_next_def index_match_def)

lemma sub_index_index: "sub_index True (''index'' @ r) = ''index'' @ sub_index True r"
  by (simp add: word_char_def index_match_def)

lemma sub_index_idem: "sub_index pw (sub_index pw s) = sub_index pw s"
proof (induction pw s rule: sub_index.induct)
  case (1 pw)
  then show ?case by simp
next
  case (2 pw c cs)
  let ?m = "index_match pw"
  show ?case
  proof (cases "?m (c # cs)")
    case True
    let ?rest = "drop 5 (c # cs)"
    from True have "sub_index pw (c # cs) = CHR ''_'' # ''index'' @ sub_index True ?rest"
      by simp
    moreover have "sub_index pw (CHR ''_'' # ''index'' @ sub_index True ?rest)
        = CHR ''_'' # sub_index True (''index'' @ sub_index True ?rest)"
      by (simp add: word_char_def index_match_def)
    moreover have "sub_index True (''index'' @ sub_index True ?rest)
        = ''index'' @ sub_index True ?rest"
      using "2.IH"(1)[OF True] by (simp only: sub_index_index)
    ultimately show ?thesis by simp
  next
    case False
    let ?r = "sub_index (word_char c) cs"
    have out: "sub_index pw (c # cs) = c # ?r" using False by simp
    have "\<not> ?m (c # ?r)"
    proof
      assume m: "?m (c # ?r)"
      then have "prefix ''index'' (c # ?r)" by (simp add: startswith_prefix index_match_def)
      then have ci: "c = CHR ''i''" and "prefix ''ndex'' ?r" by auto
      then have "prefix ''ndex'' cs" using sub_index_prefix[of "''ndex''"] by simp
      then obtain rest where cs: "cs = ''ndex'' @ rest" by (auto simp: prefix_def)
      have "?r = ''ndex'' @ sub_index True rest"
        unfolding cs ci by (simp add: word_char_def index_match_def)
      with m have "not_word_next (sub_index True rest)" by (simp add: index_match_def)
      then have "not_word_next rest" by (simp only: not_word_next_sub_index)
      with m cs ci have "?m (c # cs)" by (simp add: index_match_def)
      with False show False by blast
    qed
    then have "sub_index pw (c # ?r) = c # sub_index (word_char c) ?r" by simp
    with "2.IH"(2)[OF False] out show ?thesis by simp
  qed
qed

lemma rules_3_5_clean:
  "\<not> sublist ''SERIAL'' (rules_3_5 line) \<and> \<not> sublist ''integer'' (rules_3_5 line)
     \<and> \<not> sublist ''bigint'' (rules_3_5 line)"
proof -
  let ?new = "''INTEGER PRIMARY KEY AUTOINCREMENT''"
  define a where "a = replace ''SERIAL'' ?new line"
  define b where "b = replace ''integer'' ''INTEGER'' a"
  define c where "c = replace ''bigint'' ''INTEGER'' b"
  define d where "d = sub_index False c"
  have d: "rules_3_5 line = d"
    by (simp add: rules_3_5_def rename_index_column_def a_def b_def c_def d_def)
  have a1: "\<not> sublist ''SERIAL'' a"
    unfolding a_def by (rule replace_removes[where c = "CHR ''S''" and t = "''ERIAL''"]) simp_all
  have b1: "\<not> sublist ''SERIAL'' b"
    unfolding b_def
    using replace_preserves[where c = "CHR ''S''" and t = "''ERIAL''", OF _ _ _ a1] by simp
  have b2: "\<not> sublist ''integer'' b"
    unfolding b_def
    by (rule replace_removes[where c = "CHR ''i''" and t = "''nteger''"]) simp_all
  have c1: "\<not> sublist ''SERIAL'' c"
    unfolding c_def
    using replace_preserves[where c = "CHR ''S''" and t = "''ERIAL''", OF _ _ _ b1] by simp
  have c2: "\<not> sublist ''integer'' c"
    unfolding c_def
    using replace_preserves[where c = "CHR ''i''" and t = "''nteger''", OF _ _ _ b2] by simp
  have c3: "\<not> sublist ''bigint'' c"
    unfolding c_def
    by (rule replace_removes[where c = "CHR ''b''" and t = "''igint''"]) simp_all
  have d1: "\<not> sublist ''SERIAL'' d"
    unfolding d_def using sub_index_sublist[of "''SERIAL''"] c1 by auto
  have d2: "\<not> sublist ''integer'' d"
    unfolding d_def using sub_index_sublist[of "''integer''"] c2 by auto
  have d3: "\<not> sublist ''bigint'' d"
    unfolding d_def using sub_index_sublist[of "''bigint''"] c3 by auto
  from d1 d2 d3 show ?thesis by (simp only: d simp_thms)
qed

section \<open>Rules 3 to 5 applied twice\<close>

text \<open>
  C8. For every line, the text that rules 3 to 5 produce is a fixed point of each of
  them, and so of the three together: the replacement of \<open>SERIAL\<close>, the two
  replacements by \<open>INTEGER\<close> and the renaming of \<open>index\<close> all leave it as it is.
\<close>

theorem rules_3_5_fixed_point:
  "replace ''SERIAL'' ''INTEGER PRIMARY KEY AUTOINCREMENT'' (rules_3_5 line) = rules_3_5 line
   \<and> replace ''integer'' ''INTEGER'' (rules_3_5 line) = rules_3_5 line
   \<and> replace ''bigint'' ''INTEGER'' (rules_3_5 line) = rules_3_5 line
   \<and> rename_index_column (rules_3_5 line) = rules_3_5 line
   \<and> rules_3_5 (rules_3_5 line) = rules_3_5 line"
proof -
  have r: "rename_index_column (rules_3_5 line) = rules_3_5 line"
    by (simp add: rules_3_5_def rename_index_column_def sub_index_idem)
  have "rules_3_5 (rules_3_5 line) = rename_index_column (rules_3_5 line)"
    using rules_3_5_clean[of line] by (subst rules_3_5_def) (simp add: replace_id)
  with r rules_3_5_clean[of line] show ?thesis by (simp add: replace_id)
qed

section \<open>Renaming \<open>index\<close>\<close>

text \<open>
  C5. The docstring of \<open>rename_index_column\<close> promises that the renaming applies to
  column names and not to string values. The regular expression only looks at the two
  neighbouring characters, and a quote is no word character: in the statement
  \<open>INSERT INTO t VALUES ('index');\<close> the string literal \<open>'index'\<close> is renamed to
  \<open>'_index'\<close>.
\<close>

theorem rename_index_column_string_literal:
  "rename_index_column ''INSERT INTO t VALUES ('index');'' = ''INSERT INTO t VALUES ('_index');''"
  by code_simp

section \<open>The executor's two triggers\<close>

lemma endswith_space: "\<not> endswith (command @ line @ '' '') '';''"
  by (simp add: endswith_def)

text \<open>
  C2. Line 158 appends the line and a space, and line 161 then asks whether the buffer
  ends with \<open>;\<close>: it never does, whatever the buffer and the line, so the statements of
  lines 162 to 167 never run. A file of the one line \<open>INSERT INTO t VALUES (1);\<close> leaves
  the statement in the buffer, and the store has run nothing.
\<close>

theorem terminator_test_never_holds:
  "\<not> endswith (current_command st @ strip raw_line @ '' '') '';''
   \<and> import_loop log_store \<lparr>db = [], current_command = [], printed = []\<rparr>
         [''INSERT INTO t VALUES (1);\<newline>'']
       = Inr \<lparr>db = [], current_command = ''INSERT INTO t VALUES (1); '', printed = []\<rparr>"
proof
  show "\<not> endswith (current_command st @ strip raw_line @ '' '') '';''"
    by (rule endswith_space)
  show "import_loop log_store \<lparr>db = [], current_command = [], printed = []\<rparr>
         [''INSERT INTO t VALUES (1);\<newline>'']
       = Inr \<lparr>db = [], current_command = ''INSERT INTO t VALUES (1); '', printed = []\<rparr>"
    by code_simp
qed

text \<open>A line that is not skipped is still in the buffer when its step ends: no statement
  is run at the line that completes it.\<close>

lemma import_step_keeps_line:
  assumes "strip raw_line \<noteq> []" and "\<not> startswith (strip raw_line) ''--''"
    and "\<not> startswith (strip raw_line) ''/*''"
    and "import_step execute st raw_line = Inr st'"
  shows "\<exists>before. current_command st' = before @ strip raw_line @ '' ''"
  using assms
  by (auto simp: import_step_def Let_def endswith_space split: if_splits sum.splits)

text \<open>
  C4. A statement of three lines that is the last one of its file is run zero times:
  the store has run the \<open>PRAGMA\<close> only, and the statement is still in the buffer when
  the function returns.
\<close>

theorem last_statement_not_executed:
  "import_to_sqlite log_store ''tmp_database.db'' []
     [''CREATE TABLE t (\<newline>'', ''  id INTEGER\<newline>'', '');\<newline>'']
   = Inr \<lparr>db = [''PRAGMA journal_mode=WAL;''],
          current_command = ''CREATE TABLE t ( id INTEGER ); '',
          printed = [''Data imported successfully into tmp_database.db.'']\<rparr>"
  by code_simp

section \<open>Facts about the rewriter's step\<close>

lemma strip_keeps_start:
  assumes "startswith line p" and "p \<noteq> []" and "\<not> isspace (hd p)" and "\<not> isspace (last p)"
  shows "startswith (strip line) p"
proof -
  from assms(1) obtain r where l: "line = p @ r" by (auto simp: startswith_prefix prefix_def)
  from assms(2,3) have d: "dropWhile isspace (p @ r) = p @ r" by (cases p) auto
  from assms(2,4) have "dropWhile isspace (rev r @ rev p) = dropWhile isspace (rev r) @ rev p"
    by (cases p rule: rev_cases) (auto simp: dropWhile_append)
  then have "strip line = p @ rev (dropWhile isspace (rev r))"
    by (simp add: strip_def l d)
  then show ?thesis by (simp add: startswith_prefix)
qed

lemma startswith_differs:
  "startswith s p \<Longrightarrow> \<not> prefix p q \<Longrightarrow> \<not> prefix q p \<Longrightarrow> \<not> startswith s q"
  using prefix_same_cases by (auto simp: startswith_prefix)

lemma startswith_snoc: "c \<notin> set p \<Longrightarrow> startswith (s @ [c]) p \<longleftrightarrow> startswith s p"
  by (auto simp: startswith_prefix)

lemma replace_newline_end:
  "old \<noteq> [] \<Longrightarrow> c \<notin> set old \<Longrightarrow> replace old new (s @ [c]) = replace old new s @ [c]"
proof (induction old new s rule: replace.induct)
  case (1 old new)
  then show ?case by (cases old) auto
next
  case (2 old new x xs)
  have sw: "startswith ((x # xs) @ [c]) old \<longleftrightarrow> startswith (x # xs) old"
    using "2.prems" by (intro startswith_snoc) simp
  show ?case
  proof (cases "startswith (x # xs) old")
    case True
    then have "length old \<le> length (x # xs)"
      unfolding startswith_prefix by (rule prefix_length_le)
    then have "drop (length old) ((x # xs) @ [c]) = drop (length old) (x # xs) @ [c]"
      by (simp only: drop_append diff_is_0_eq' drop_0)
    with True sw 2 show ?thesis by simp
  next
    case False
    with sw 2 show ?thesis by simp
  qed
qed

lemma update_new_key: "k \<notin> fst ` set d \<Longrightarrow> AList.update k v d = d @ [(k, v)]"
  by (induction d) auto

lemma update_old_key: "k \<in> fst ` set d \<Longrightarrow> map fst (AList.update k v d) = map fst d"
  by (induction d) auto

lemma set_strip: "set (strip s) \<subseteq> set s"
proof -
  have "set (dropWhile isspace (rev (dropWhile isspace s))) \<subseteq> set (rev (dropWhile isspace s))"
    by (auto dest: set_dropWhileD)
  also have "\<dots> \<subseteq> set s" by (auto dest: set_dropWhileD)
  finally show ?thesis by (simp add: strip_def)
qed

lemma in_dropWhile: "x \<in> set xs \<Longrightarrow> \<not> P x \<Longrightarrow> x \<in> set (dropWhile P xs)"
  by (induction xs) auto

lemma in_strip: "x \<in> set s \<Longrightarrow> \<not> isspace x \<Longrightarrow> x \<in> set (strip s)"
  by (simp add: strip_def in_dropWhile)

lemma semicolon_extend:
  "CHR '';'' \<notin> set buffer \<Longrightarrow>
     CHR '';'' \<in> set (extend_alter_buffer buffer line) \<longleftrightarrow> CHR '';'' \<in> set line"
  using set_strip[of line] in_strip[of "CHR '';''" line]
  by (auto simp: extend_alter_buffer_def isspace_def)

text \<open>What a write changes: the text is added to the texts written, and the file and the
  buffer together grow by it; nothing else changes.\<close>

lemma write_outfile_fields:
  "create_table_statements (write_outfile buffering s w) = create_table_statements s"
  "alter_table_buffer (write_outfile buffering s w) = alter_table_buffer s"
  "console (write_outfile buffering s w) = console s"
  "outfile (write_outfile buffering s w) = outfile s @ [w]"
  "disk (write_outfile buffering s w) @ pending (write_outfile buffering s w)
     = disk s @ pending s @ w"
  by (simp_all add: write_outfile_def Let_def del: take_append drop_append)

text \<open>With \<open>flush_above\<close>, a write that makes the buffer longer than the limit moves all that
  is pending to the file, and a write that does not leaves the file as it is.\<close>

lemma write_outfile_flush_above:
  "write_outfile (flush_above limit) s w =
     (if limit < length (pending s @ w)
      then s\<lparr>outfile := outfile s @ [w], pending := [], disk := disk s @ pending s @ w\<rparr>
      else s\<lparr>outfile := outfile s @ [w], pending := pending s @ w, disk := disk s\<rparr>)"
  by (simp add: write_outfile_def flush_above_def Let_def)

section \<open>The patch-back of a primary key\<close>

lemma concat_lines_from: "concat (lines_from acc content) = acc @ content"
  by (induction content arbitrary: acc) auto

lemma concat_readlines: "concat (readlines content) = content"
  by (simp add: readlines_def concat_lines_from)

text \<open>Whatever the loop of lines 92 to 102 writes when it does not raise is the text it
  has read: no clause is ever inserted.\<close>

lemma patch_create_table_writes:
  "patch_create_table table_name columns lines = Inr written \<Longrightarrow> written = concat lines"
proof (induction lines arbitrary: written)
  case Nil
  then show ?case by simp
next
  case (Cons temp_line lines)
  then obtain rest where "patch_create_table table_name columns lines = Inr rest"
    and "written = temp_line @ rest"
    by (cases "patch_create_table table_name columns lines") (auto split: if_splits)
  with Cons.IH show ?case by simp
qed

lemma patch_create_table_absent:
  "\<not> list_ex (\<lambda>l. startswith (strip l) (''CREATE TABLE '' @ table_name)) lines
     \<Longrightarrow> patch_create_table table_name columns lines = Inr (concat lines)"
  by (induction lines) auto

text \<open>A line that rule 1 or rule 6 drops leaves the state as it is.\<close>

lemma dropped_line_ignored:
  "postgres_command line \<or> table_option (rewrite_line line)
     \<Longrightarrow> convert_step buffering s line = Inr s"
  by (auto simp: convert_step_def)

text \<open>
  An \<open>ALTER\<close> statement that ends at a line of the alter branch: when the pattern does not
  match, or matches and no line of the file on disk starts with \<open>CREATE TABLE\<close> and the
  table name, the statement is dropped, the buffer is cleared and nothing else
  changes; and no step that completes changes anything but the buffer.
\<close>

lemma alter_statement_dropped:
  assumes "\<not> postgres_command line" and "\<not> table_option (rewrite_line line)"
    and "\<not> startswith (strip (rewrite_line line)) ''CREATE TABLE''"
    and "create_table_statements s = []"
    and "startswith (strip (rewrite_line line)) ''ALTER TABLE'' \<or> alter_table_buffer s \<noteq> []"
    and "CHR '';'' \<notin> set (alter_table_buffer s)"
    and "CHR '';'' \<in> set (extend_alter_buffer (alter_table_buffer s) (rewrite_line line))"
  shows "(search_primary_key (extend_alter_buffer (alter_table_buffer s) (rewrite_line line)) = None
            \<longrightarrow> convert_step buffering s line = Inr (s\<lparr>alter_table_buffer := []\<rparr>))
       \<and> (\<forall>table_name columns.
             search_primary_key (extend_alter_buffer (alter_table_buffer s) (rewrite_line line))
               = Some (table_name, columns)
             \<and> \<not> list_ex (\<lambda>l. startswith (strip l) (''CREATE TABLE '' @ table_name))
                   (readlines (disk s))
            \<longrightarrow> convert_step buffering s line = Inr (s\<lparr>alter_table_buffer := []\<rparr>))
       \<and> (\<forall>s'. convert_step buffering s line = Inr s' \<longrightarrow> s' = s\<lparr>alter_table_buffer := []\<rparr>)"
proof -
  let ?line = "rewrite_line line"
  let ?buffer = "extend_alter_buffer (alter_table_buffer s) ?line"
  from assms(6,7) have semi: "CHR '';'' \<in> set ?line" by (simp add: semicolon_extend)
  have step: "convert_step buffering s line =
     (case search_primary_key ?buffer of
        None \<Rightarrow> Inr (s\<lparr>alter_table_buffer := []\<rparr>)
      | Some (table_name, columns) \<Rightarrow>
          (case patch_create_table table_name columns (readlines (disk s)) of
             Inl e \<Rightarrow> Inl e
           | Inr written \<Rightarrow> Inr (s\<lparr>disk := written, alter_table_buffer := []\<rparr>)))"
    using assms(1-5) semi by (simp add: convert_step_def emit_line_def)
  have a: "search_primary_key ?buffer = None
             \<longrightarrow> convert_step buffering s line = Inr (s\<lparr>alter_table_buffer := []\<rparr>)"
    by (simp add: step)
  have b: "convert_step buffering s line = Inr (s\<lparr>alter_table_buffer := []\<rparr>)"
    if "search_primary_key ?buffer = Some (table_name, columns)"
      and "\<not> list_ex (\<lambda>l. startswith (strip l) (''CREATE TABLE '' @ table_name))
               (readlines (disk s))"
    for table_name columns
    using that by (simp add: step patch_create_table_absent concat_readlines)
  have c: "s' = s\<lparr>alter_table_buffer := []\<rparr>" if "convert_step buffering s line = Inr s'" for s'
  proof (cases "search_primary_key ?buffer")
    case None
    with that show ?thesis by (simp add: step)
  next
    case (Some groups)
    obtain table_name columns where g: "groups = (table_name, columns)" by (cases groups)
    from that Some g obtain written
      where w: "patch_create_table table_name columns (readlines (disk s)) = Inr written"
        and s': "s' = s\<lparr>disk := written, alter_table_buffer := []\<rparr>"
      by (auto simp: step split: sum.splits)
    from patch_create_table_writes[OF w] have "written = disk s" by (simp add: concat_readlines)
    with s' show ?thesis by simp
  qed
  from a b c show ?thesis by blast
qed

text \<open>The alter-buffer never holds a \<open>;\<close> between two lines: a line with a \<open>;\<close> clears
  it (or the function raises).\<close>

lemma convert_step_alter_buffer:
  assumes "convert_step buffering s line = Inr s'" and "CHR '';'' \<notin> set (alter_table_buffer s)"
  shows "CHR '';'' \<notin> set (alter_table_buffer s')"
proof -
  have "CHR '';'' \<notin> set (extend_alter_buffer (alter_table_buffer s) (rewrite_line line))"
    if "CHR '';'' \<notin> set (rewrite_line line)"
    using that assms(2) by (simp add: semicolon_extend)
  with assms show ?thesis
    by (auto simp: convert_step_def emit_line_def Let_def write_outfile_fields
        split: if_splits option.splits prod.splits sum.splits)
qed

lemma convert_lines_alter_buffer:
  "convert_lines buffering s infile = Inr s' \<Longrightarrow> CHR '';'' \<notin> set (alter_table_buffer s)
     \<Longrightarrow> CHR '';'' \<notin> set (alter_table_buffer s')"
proof (induction infile arbitrary: s)
  case Nil
  then show ?case by simp
next
  case (Cons line infile)
  then show ?case
    by (cases "convert_step buffering s line") (auto dest: convert_step_alter_buffer)
qed

text \<open>
  The file and the buffer together are the texts written, in order, whatever the
  buffering: the patch-back adds nothing to them. So the file that the function
  leaves is the concatenation of the texts given to \<open>outfile.write\<close>.
\<close>

lemma convert_step_output:
  assumes "convert_step buffering s line = Inr s'"
    and "disk s @ pending s = concat (outfile s)"
  shows "disk s' @ pending s' = concat (outfile s')"
proof -
  have w: "disk (write_outfile buffering t w) @ pending (write_outfile buffering t w)
             = concat (outfile (write_outfile buffering t w))"
    if "disk t @ pending t = concat (outfile t)" for t w
    using that by (simp add: write_outfile_fields)
  have p: "written = disk s"
    if "patch_create_table table_name columns (readlines (disk s)) = Inr written"
    for table_name columns written
    using patch_create_table_writes[OF that] by (simp add: concat_readlines)
  from assms show ?thesis
    by (auto simp: convert_step_def emit_line_def Let_def w dest!: p
        split: if_splits option.splits prod.splits sum.splits)
qed

lemma convert_lines_output:
  "convert_lines buffering s infile = Inr s' \<Longrightarrow> disk s @ pending s = concat (outfile s)
     \<Longrightarrow> disk s' @ pending s' = concat (outfile s')"
proof (induction infile arbitrary: s)
  case Nil
  then show ?case by simp
next
  case (Cons line infile)
  then show ?case
    by (cases "convert_step buffering s line") (auto dest: convert_step_output)
qed

lemma convert_postgres_to_sqlite_output:
  assumes "convert_postgres_to_sqlite buffering infile output_file = Inr s"
  shows "disk s = concat (outfile s) \<and> pending s = []"
proof -
  from assms obtain t where t: "convert_lines buffering initial_conv_state infile = Inr t"
    and s: "s = (close_outfile t)\<lparr>console := console t @
                 [''Conversion complete! SQLite-compatible SQL saved to '' @ output_file]\<rparr>"
    by (auto simp: convert_postgres_to_sqlite_def split: sum.splits)
  from convert_lines_output[OF t] have "disk t @ pending t = concat (outfile t)"
    by (simp add: initial_conv_state_def)
  with s show ?thesis by (simp add: close_outfile_def)
qed

section \<open>The primary key that is never inserted\<close>

text \<open>
  C1. On the input of the specification, a table \<open>t\<close> of two columns followed by
  \<open>ALTER TABLE t ADD CONSTRAINT t_pkey PRIMARY KEY (id);\<close>, the function returns and
  the file it leaves holds the block of \<open>t\<close> as it was emitted, without a
  \<open>PRIMARY KEY (id)\<close> clause: the block is still in the buffer when line 88 opens the
  file, the lines read are none, and the file is written anew as it was. Had the block
  reached the file before (\<open>flush_above 0\<close>), the line \<open>CREATE TABLE t (\<close> would be found;
  it does not end with \<open>);\<close>, so \<open>next(lines)\<close> is called on a list and the function ends
  with a \<open>TypeError\<close>. Either way no clause is inserted.
\<close>

theorem primary_key_never_inserted:
  "convert_postgres_to_sqlite (flush_above 8192)
     [''CREATE TABLE t (\<newline>'', ''  id SERIAL,\<newline>'', ''  name text\<newline>'', '');\<newline>'',
      ''ALTER TABLE t ADD CONSTRAINT t_pkey PRIMARY KEY (id);\<newline>'']
     ''out.sql''
   = Inr \<lparr>create_table_statements = [], alter_table_buffer = [],
          outfile = [''CREATE TABLE t (\<newline>  id INTEGER PRIMARY KEY AUTOINCREMENT,\<newline>  name text\<newline>);\<newline>''],
          pending = [],
          disk = ''CREATE TABLE t (\<newline>  id INTEGER PRIMARY KEY AUTOINCREMENT,\<newline>  name text\<newline>);\<newline>'',
          console = [''Conversion complete! SQLite-compatible SQL saved to out.sql'']\<rparr>
   \<and> convert_postgres_to_sqlite (flush_above 0)
     [''CREATE TABLE t (\<newline>'', ''  id SERIAL,\<newline>'', ''  name text\<newline>'', '');\<newline>'',
      ''ALTER TABLE t ADD CONSTRAINT t_pkey PRIMARY KEY (id);\<newline>'']
     ''out.sql''
   = Inl TypeError"
  by code_simp

section \<open>ALTER statements\<close>

lemma patch_first_line_raises:
  "patch_create_table ''t'' columns (readlines (''CREATE TABLE t (\<newline>'' @ rest)) = Inl TypeError"
proof -
  have "readlines (''CREATE TABLE t (\<newline>'' @ rest) = ''CREATE TABLE t (\<newline>'' # lines_from [] rest"
    by (simp add: readlines_def)
  moreover have "startswith (strip ''CREATE TABLE t (\<newline>'') (''CREATE TABLE '' @ ''t'')" by code_simp
  moreover have "\<not> endswith (strip ''CREATE TABLE t (\<newline>'') '');''" by code_simp
  ultimately show ?thesis by simp
qed

text \<open>
  When a line longer than the buffer is written between the block of \<open>t\<close> and the
  \<open>ALTER\<close> statement, the block is in the file when the statement arrives, and the
  statement raises.
\<close>

lemma flushed_block_raises:
  assumes big: "limit < length big"
    and step: "convert_step (flush_above limit) s big
                 = Inr (write_outfile (flush_above limit) s big)"
    and s: "create_table_statements s = []" "alter_table_buffer s = []"
      "disk s @ pending s = ''CREATE TABLE t (\<newline>'' @ rest"
  shows "convert_lines (flush_above limit) s
           [big, ''ALTER TABLE t ADD CONSTRAINT t_pkey PRIMARY KEY (id);\<newline>'']
         = Inl TypeError"
proof -
  let ?alter = "''ALTER TABLE t ADD CONSTRAINT t_pkey PRIMARY KEY (id);\<newline>''"
  let ?s1 = "write_outfile (flush_above limit) s big"
  from big have "limit < length (pending s @ big)" by simp
  then have s1: "?s1 = s\<lparr>outfile := outfile s @ [big], pending := [],
                         disk := disk s @ pending s @ big\<rparr>"
    by (simp add: write_outfile_flush_above)
  have a1: "\<not> postgres_command ?alter" by code_simp
  have a2: "\<not> table_option (rewrite_line ?alter)" by code_simp
  have a3: "rewrite_line ?alter = ?alter" by code_simp
  have a4: "\<not> startswith (strip ?alter) ''CREATE TABLE''" by code_simp
  have a5: "startswith (strip ?alter) ''ALTER TABLE''" by code_simp
  have a6: "CHR '';'' \<in> set ?alter" by simp
  have a7: "search_primary_key (extend_alter_buffer [] ?alter) = Some (''t'', ''id'')" by code_simp
  have p: "patch_create_table ''t'' ''id'' (readlines (disk s @ pending s @ big)) = Inl TypeError"
  proof -
    have "disk s @ pending s @ big = ''CREATE TABLE t (\<newline>'' @ (rest @ big)"
      using s(3) by (metis append_assoc)
    then show ?thesis by (simp only: patch_first_line_raises)
  qed
  have "emit_line (flush_above limit) ?s1 ?alter = Inl TypeError"
    unfolding emit_line_def using a4 a5 a6 a7 s(1,2) p
    by (simp add: s1 Let_def)
  with a1 a2 a3 have "convert_step (flush_above limit) ?s1 ?alter = Inl TypeError"
    by (simp add: convert_step_def)
  with step show ?thesis by simp
qed

text \<open>
  C6. The buffer is not cleared whatever the match gives. With the block of \<open>t\<close> in the
  file, the statement \<open>ALTER TABLE t ADD CONSTRAINT t_pkey PRIMARY KEY (id);\<close> matches
  the pattern and the line \<open>CREATE TABLE t (\<close> is found: the step raises \<open>TypeError\<close> in
  the loop of line 96, and line 103, which clears the buffer, is not reached. The
  other half of the claim holds: \<open>alter_statement_dropped\<close> above.
\<close>

theorem matched_alter_raises:
  "search_primary_key
     (extend_alter_buffer [] (rewrite_line ''ALTER TABLE t ADD CONSTRAINT t_pkey PRIMARY KEY (id);\<newline>''))
     = Some (''t'', ''id'')
   \<and> convert_step buffering
     \<lparr>create_table_statements = [], alter_table_buffer = [],
      outfile = [''CREATE TABLE t (\<newline>  id INTEGER,\<newline>  name text\<newline>);\<newline>''],
      pending = [],
      disk = ''CREATE TABLE t (\<newline>  id INTEGER,\<newline>  name text\<newline>);\<newline>'',
      console = []\<rparr>
     ''ALTER TABLE t ADD CONSTRAINT t_pkey PRIMARY KEY (id);\<newline>''
   = Inl TypeError"
  by code_simp

section \<open>Table-definition blocks\<close>

text \<open>
  C7, as amended. While a table-definition block is open, every line that is not
  dropped by rule 1 or rule 6 and that does not itself start a \<open>CREATE TABLE\<close> is, as
  rewritten by rules 2 to 5, appended to the buffer of the last table of the
  dictionary and not emitted, until a line arrives whose trimmed text starts with
  \<open>);\<close>: that line is appended too, the buffered text of the last table is written to
  the output, and the entry of that table is removed. A line that starts a
  \<open>CREATE TABLE\<close> opens a table instead: under a name that is not pending the table
  becomes the last of the dictionary, under a name that is pending it takes the place
  of the pending one and the order of the dictionary stays.
\<close>

theorem open_block_takes_lines:
  assumes "create_table_statements s \<noteq> []"
    and "\<not> postgres_command line" and "\<not> table_option (rewrite_line line)"
  shows
    "(\<not> startswith (strip (rewrite_line line)) ''CREATE TABLE'' \<longrightarrow>
        convert_step buffering s line =
          (case last (create_table_statements s) of (table_name, buf) \<Rightarrow>
             if startswith (strip (rewrite_line line)) '');''
             then Inr (write_outfile buffering
                         (s\<lparr>create_table_statements := butlast (create_table_statements s)\<rparr>)
                         (concat buf @ rewrite_line line))
             else Inr (s\<lparr>create_table_statements :=
                            butlast (create_table_statements s) @
                            [(table_name, buf @ [rewrite_line line])]\<rparr>)))
     \<and> (\<forall>table_name.
           startswith (strip (rewrite_line line)) ''CREATE TABLE''
           \<and> search_create_table (rewrite_line line) = Some table_name \<longrightarrow>
           convert_step buffering s line =
             Inr (s\<lparr>create_table_statements :=
                      AList.update table_name [rewrite_line line] (create_table_statements s)\<rparr>)
           \<and> (table_name \<notin> fst ` set (create_table_statements s) \<longrightarrow>
                 AList.update table_name [rewrite_line line] (create_table_statements s)
                   = create_table_statements s @ [(table_name, [rewrite_line line])])
           \<and> (table_name \<in> fst ` set (create_table_statements s) \<longrightarrow>
                 map fst (AList.update table_name [rewrite_line line] (create_table_statements s))
                   = map fst (create_table_statements s)))"
  using assms
  by (simp add: convert_step_def emit_line_def update_new_key update_old_key split: prod.splits)

text \<open>The theorem at a column line, which is buffered, at the terminator, which flushes the
  block, at the opening of a second table \<open>u\<close>, which becomes the last, and at the
  opening of \<open>t\<close> again, which stays before \<open>u\<close>.\<close>

theorem open_block_takes_lines_witness:
  "convert_step (flush_above 8192)
     \<lparr>create_table_statements = [(''t'', [''CREATE TABLE t (\<newline>''])], alter_table_buffer = [],
      outfile = [], pending = [], disk = [], console = []\<rparr>
     ''  id SERIAL\<newline>''
   = Inr \<lparr>create_table_statements =
            [(''t'', [''CREATE TABLE t (\<newline>'', ''  id INTEGER PRIMARY KEY AUTOINCREMENT\<newline>''])],
          alter_table_buffer = [], outfile = [], pending = [], disk = [], console = []\<rparr>
   \<and> convert_step (flush_above 8192)
     \<lparr>create_table_statements =
        [(''t'', [''CREATE TABLE t (\<newline>'', ''  id INTEGER PRIMARY KEY AUTOINCREMENT\<newline>''])],
      alter_table_buffer = [], outfile = [], pending = [], disk = [], console = []\<rparr>
     '');\<newline>''
   = Inr \<lparr>create_table_statements = [], alter_table_buffer = [],
          outfile = [''CREATE TABLE t (\<newline>  id INTEGER PRIMARY KEY AUTOINCREMENT\<newline>);\<newline>''],
          pending = ''CREATE TABLE t (\<newline>  id INTEGER PRIMARY KEY AUTOINCREMENT\<newline>);\<newline>'',
          disk = [], console = []\<rparr>
   \<and> convert_step (flush_above 8192)
     \<lparr>create_table_statements = [(''t'', [''CREATE TABLE t (\<newline>''])], alter_table_buffer = [],
      outfile = [], pending = [], disk = [], console = []\<rparr>
     ''CREATE TABLE public.u (\<newline>''
   = Inr \<lparr>create_table_statements =
            [(''t'', [''CREATE TABLE t (\<newline>'']), (''u'', [''CREATE TABLE u (\<newline>''])],
          alter_table_buffer = [], outfile = [], pending = [], disk = [], console = []\<rparr>
   \<and> convert_step (flush_above 8192)
     \<lparr>create_table_statements =
        [(''t'', [''CREATE TABLE t (\<newline>'', ''  id INTEGER\<newline>'']), (''u'', [''CREATE TABLE u (\<newline>''])],
      alter_table_buffer = [], outfile = [], pending = [], disk = [], console = []\<rparr>
     ''CREATE TABLE t (\<newline>''
   = Inr \<lparr>create_table_statements =
            [(''t'', [''CREATE TABLE t (\<newline>'']), (''u'', [''CREATE TABLE u (\<newline>''])],
          alter_table_buffer = [], outfile = [], pending = [], disk = [], console = []\<rparr>"
proof -
  let ?b = "flush_above 8192"
  let ?s1 = "\<lparr>create_table_statements = [(''t'', [''CREATE TABLE t (\<newline>''])],
      alter_table_buffer = [], outfile = [], pending = [], disk = [], console = []\<rparr>"
  let ?s2 = "\<lparr>create_table_statements =
        [(''t'', [''CREATE TABLE t (\<newline>'', ''  id INTEGER PRIMARY KEY AUTOINCREMENT\<newline>''])],
      alter_table_buffer = [], outfile = [], pending = [], disk = [], console = []\<rparr>"
  let ?s3 = "\<lparr>create_table_statements =
        [(''t'', [''CREATE TABLE t (\<newline>'', ''  id INTEGER\<newline>'']), (''u'', [''CREATE TABLE u (\<newline>''])],
      alter_table_buffer = [], outfile = [], pending = [], disk = [], console = []\<rparr>"
  let ?l1 = "''  id SERIAL\<newline>''"
  let ?l2 = "'');\<newline>''"
  let ?l3 = "''CREATE TABLE public.u (\<newline>''"
  let ?l4 = "''CREATE TABLE t (\<newline>''"
  have a1: "create_table_statements ?s1 \<noteq> []" by simp
  have a2: "\<not> postgres_command ?l1" by code_simp
  have a3: "\<not> table_option (rewrite_line ?l1)" by code_simp
  have a4: "\<not> startswith (strip (rewrite_line ?l1)) ''CREATE TABLE''" by code_simp
  have b1: "create_table_statements ?s2 \<noteq> []" by simp
  have b2: "\<not> postgres_command ?l2" by code_simp
  have b3: "\<not> table_option (rewrite_line ?l2)" by code_simp
  have b4: "\<not> startswith (strip (rewrite_line ?l2)) ''CREATE TABLE''" by code_simp
  have c2: "\<not> postgres_command ?l3" by code_simp
  have c3: "\<not> table_option (rewrite_line ?l3)" by code_simp
  have c4: "startswith (strip (rewrite_line ?l3)) ''CREATE TABLE''
              \<and> search_create_table (rewrite_line ?l3) = Some ''u''" by code_simp
  have d1: "create_table_statements ?s3 \<noteq> []" by simp
  have d2: "\<not> postgres_command ?l4" by code_simp
  have d3: "\<not> table_option (rewrite_line ?l4)" by code_simp
  have d4: "startswith (strip (rewrite_line ?l4)) ''CREATE TABLE''
              \<and> search_create_table (rewrite_line ?l4) = Some ''t''" by code_simp
  have "convert_step ?b ?s1 ?l1 =
     (case last (create_table_statements ?s1) of (table_name, buf) \<Rightarrow>
        if startswith (strip (rewrite_line ?l1)) '');''
        then Inr (write_outfile ?b
                    (?s1\<lparr>create_table_statements := butlast (create_table_statements ?s1)\<rparr>)
                    (concat buf @ rewrite_line ?l1))
        else Inr (?s1\<lparr>create_table_statements :=
                       butlast (create_table_statements ?s1) @
                       [(table_name, buf @ [rewrite_line ?l1])]\<rparr>))"
    using open_block_takes_lines[OF a1 a2 a3, of ?b] a4 by blast
  also have "\<dots> = Inr ?s2" by code_simp
  finally have w1: "convert_step ?b ?s1 ?l1 = Inr ?s2" .
  have "convert_step ?b ?s2 ?l2 =
     (case last (create_table_statements ?s2) of (table_name, buf) \<Rightarrow>
        if startswith (strip (rewrite_line ?l2)) '');''
        then Inr (write_outfile ?b
                    (?s2\<lparr>create_table_statements := butlast (create_table_statements ?s2)\<rparr>)
                    (concat buf @ rewrite_line ?l2))
        else Inr (?s2\<lparr>create_table_statements :=
                       butlast (create_table_statements ?s2) @
                       [(table_name, buf @ [rewrite_line ?l2])]\<rparr>))"
    using open_block_takes_lines[OF b1 b2 b3, of ?b] b4 by blast
  also have "\<dots> = Inr \<lparr>create_table_statements = [], alter_table_buffer = [],
          outfile = [''CREATE TABLE t (\<newline>  id INTEGER PRIMARY KEY AUTOINCREMENT\<newline>);\<newline>''],
          pending = ''CREATE TABLE t (\<newline>  id INTEGER PRIMARY KEY AUTOINCREMENT\<newline>);\<newline>'',
          disk = [], console = []\<rparr>" by code_simp
  finally have w2: "convert_step ?b ?s2 ?l2 = Inr \<lparr>create_table_statements = [],
          alter_table_buffer = [],
          outfile = [''CREATE TABLE t (\<newline>  id INTEGER PRIMARY KEY AUTOINCREMENT\<newline>);\<newline>''],
          pending = ''CREATE TABLE t (\<newline>  id INTEGER PRIMARY KEY AUTOINCREMENT\<newline>);\<newline>'',
          disk = [], console = []\<rparr>" .
  have "convert_step ?b ?s1 ?l3 =
          Inr (?s1\<lparr>create_table_statements :=
                  AList.update ''u'' [rewrite_line ?l3] (create_table_statements ?s1)\<rparr>)"
    using open_block_takes_lines[OF a1 c2 c3, of ?b] c4 by blast
  also have "\<dots> = Inr \<lparr>create_table_statements =
            [(''t'', [''CREATE TABLE t (\<newline>'']), (''u'', [''CREATE TABLE u (\<newline>''])],
          alter_table_buffer = [], outfile = [], pending = [], disk = [], console = []\<rparr>"
    by code_simp
  finally have w3: "convert_step ?b ?s1 ?l3 = Inr \<lparr>create_table_statements =
            [(''t'', [''CREATE TABLE t (\<newline>'']), (''u'', [''CREATE TABLE u (\<newline>''])],
          alter_table_buffer = [], outfile = [], pending = [], disk = [], console = []\<rparr>" .
  have "convert_step ?b ?s3 ?l4 =
          Inr (?s3\<lparr>create_table_statements :=
                  AList.update ''t'' [rewrite_line ?l4] (create_table_statements ?s3)\<rparr>)"
    using open_block_takes_lines[OF d1 d2 d3, of ?b] d4 by blast
  also have "\<dots> = Inr \<lparr>create_table_statements =
            [(''t'', [''CREATE TABLE t (\<newline>'']), (''u'', [''CREATE TABLE u (\<newline>''])],
          alter_table_buffer = [], outfile = [], pending = [], disk = [], console = []\<rparr>"
    by code_simp
  finally have w4: "convert_step ?b ?s3 ?l4 = Inr \<lparr>create_table_statements =
            [(''t'', [''CREATE TABLE t (\<newline>'']), (''u'', [''CREATE TABLE u (\<newline>''])],
          alter_table_buffer = [], outfile = [], pending = [], disk = [], console = []\<rparr>" .
  from w1 w2 w3 w4 show ?thesis by blast
qed

text \<open>
  The claim as stated fails. With a block open, a storage-option line is neither
  appended nor emitted; a line that starts with \<open>);\<close> closes the block although its
  trimmed text is not \<open>);\<close>; and when \<open>a\<close>, \<open>b\<close> and again \<open>a\<close> are opened, the next line
  goes to the buffer of \<open>b\<close>, which is the last key of the dictionary but not the table
  opened last.
\<close>

theorem open_block_other_lines:
  "convert_step (flush_above 8192)
     \<lparr>create_table_statements = [(''t'', [''CREATE TABLE t (\<newline>'', ''  id INTEGER\<newline>'', '')\<newline>''])],
      alter_table_buffer = [], outfile = [], pending = [], disk = [], console = []\<rparr>
     ''WITH (autovacuum_enabled='true');\<newline>''
   = Inr \<lparr>create_table_statements = [(''t'', [''CREATE TABLE t (\<newline>'', ''  id INTEGER\<newline>'', '')\<newline>''])],
          alter_table_buffer = [], outfile = [], pending = [], disk = [], console = []\<rparr>
   \<and> strip ''); -- end of t\<newline>'' \<noteq> '');''
   \<and> convert_step (flush_above 8192)
     \<lparr>create_table_statements = [(''t'', [''CREATE TABLE t (\<newline>''])], alter_table_buffer = [],
      outfile = [], pending = [], disk = [], console = []\<rparr>
     ''); -- end of t\<newline>''
   = Inr \<lparr>create_table_statements = [], alter_table_buffer = [],
          outfile = [''CREATE TABLE t (\<newline>); -- end of t\<newline>''],
          pending = ''CREATE TABLE t (\<newline>); -- end of t\<newline>'', disk = [], console = []\<rparr>
   \<and> convert_lines (flush_above 8192) initial_conv_state
       [''CREATE TABLE a (\<newline>'', ''CREATE TABLE b (\<newline>'', ''CREATE TABLE a (\<newline>'', ''  x text\<newline>'']
   = Inr \<lparr>create_table_statements =
            [(''a'', [''CREATE TABLE a (\<newline>'']), (''b'', [''CREATE TABLE b (\<newline>'', ''  x text\<newline>''])],
          alter_table_buffer = [], outfile = [], pending = [], disk = [], console = []\<rparr>"
  by code_simp

section \<open>CREATE INDEX lines\<close>

text \<open>
  C9, as amended. A line that is not dropped by rule 1 or rule 6, that arrives while no
  table-definition block is open and the alter-buffer is empty, and whose rewritten
  text starts with \<open>CREATE INDEX\<close>, is written to the output at once, with every
  \<open> USING btree\<close> that the scan finds removed and with one newline added: one blank line
  when the line itself ends with a newline.
\<close>

theorem create_index_emitted:
  assumes "\<not> postgres_command line" and "\<not> table_option (rewrite_line line)"
    and "create_table_statements s = []" and "alter_table_buffer s = []"
    and "startswith (rewrite_line line) ''CREATE INDEX''"
  shows "convert_step buffering s line =
           Inr (write_outfile buffering s
                  (replace '' USING btree'' [] (rewrite_line line) @ [CHR 0x0A]))
       \<and> outfile (write_outfile buffering s
                    (replace '' USING btree'' [] (rewrite_line line) @ [CHR 0x0A]))
           = outfile s @ [replace '' USING btree'' [] (rewrite_line line) @ [CHR 0x0A]]
       \<and> (\<forall>body. rewrite_line line = body @ [CHR 0x0A] \<longrightarrow>
             replace '' USING btree'' [] (rewrite_line line) @ [CHR 0x0A]
               = replace '' USING btree'' [] body @ [CHR 0x0A, CHR 0x0A])"
proof -
  have sp: "startswith (strip (rewrite_line line)) ''CREATE INDEX''"
    by (rule strip_keeps_start[OF assms(5)]) (simp_all add: isspace_def)
  have "\<not> startswith (strip (rewrite_line line)) ''CREATE TABLE''"
    by (rule startswith_differs[OF sp]) simp_all
  moreover have "\<not> startswith (strip (rewrite_line line)) ''ALTER TABLE''"
    by (rule startswith_differs[OF sp]) simp_all
  ultimately have "convert_step buffering s line =
           Inr (write_outfile buffering s
                  (replace '' USING btree'' [] (rewrite_line line) @ [CHR 0x0A]))"
    using assms by (simp add: convert_step_def emit_line_def)
  moreover have "replace '' USING btree'' [] (body @ [CHR 0x0A]) @ [CHR 0x0A]
               = replace '' USING btree'' [] body @ [CHR 0x0A, CHR 0x0A]" for body
    by (subst replace_newline_end) simp_all
  ultimately show ?thesis by (simp add: write_outfile_fields)
qed

text \<open>The theorem at a line of a dump.\<close>

theorem create_index_emitted_witness:
  "\<not> postgres_command ''CREATE INDEX i ON public.t USING btree (a);\<newline>''
   \<and> \<not> table_option (rewrite_line ''CREATE INDEX i ON public.t USING btree (a);\<newline>'')
   \<and> startswith (rewrite_line ''CREATE INDEX i ON public.t USING btree (a);\<newline>'') ''CREATE INDEX''
   \<and> convert_step (flush_above 8192) initial_conv_state
         ''CREATE INDEX i ON public.t USING btree (a);\<newline>''
       = Inr (initial_conv_state\<lparr>outfile := [''CREATE INDEX i ON t (a);\<newline>\<newline>''],
                pending := ''CREATE INDEX i ON t (a);\<newline>\<newline>''\<rparr>)"
proof -
  let ?line = "''CREATE INDEX i ON public.t USING btree (a);\<newline>''"
  have h1: "\<not> postgres_command ?line" by code_simp
  have h2: "\<not> table_option (rewrite_line ?line)" by code_simp
  have h3: "create_table_statements initial_conv_state = []" by code_simp
  have h4: "alter_table_buffer initial_conv_state = []" by code_simp
  have h5: "startswith (rewrite_line ?line) ''CREATE INDEX''" by code_simp
  have "convert_step (flush_above 8192) initial_conv_state ?line =
          Inr (write_outfile (flush_above 8192) initial_conv_state
                 (replace '' USING btree'' [] (rewrite_line ?line) @ [CHR 0x0A]))"
    using create_index_emitted[OF h1 h2 h3 h4 h5] by blast
  also have "\<dots> = Inr (initial_conv_state\<lparr>outfile := [''CREATE INDEX i ON t (a);\<newline>\<newline>''],
                pending := ''CREATE INDEX i ON t (a);\<newline>\<newline>''\<rparr>)"
    by code_simp
  finally show ?thesis using h1 h2 h5 by blast
qed

text \<open>
  The claim as stated fails. A \<open>CREATE INDEX\<close> line with a \<open>WITH (\<close> clause is dropped;
  with a table-definition block open the line is buffered as it is; with a non-empty
  alter-buffer it is joined to that buffer and lost with it; and the last line of a
  file, which has no newline, is followed by no blank line.
\<close>

theorem create_index_not_emitted:
  "convert_step (flush_above 8192) initial_conv_state
       ''CREATE INDEX i ON public.t USING btree (a) WITH (fillfactor=90);\<newline>''
     = Inr initial_conv_state
   \<and> convert_step (flush_above 8192)
       \<lparr>create_table_statements = [(''t'', [''CREATE TABLE t (\<newline>''])], alter_table_buffer = [],
        outfile = [], pending = [], disk = [], console = []\<rparr>
       ''CREATE INDEX i ON t USING btree (a);\<newline>''
     = Inr \<lparr>create_table_statements =
              [(''t'', [''CREATE TABLE t (\<newline>'', ''CREATE INDEX i ON t USING btree (a);\<newline>''])],
            alter_table_buffer = [], outfile = [], pending = [], disk = [], console = []\<rparr>
   \<and> convert_step (flush_above 8192)
       \<lparr>create_table_statements = [], alter_table_buffer = ''ALTER TABLE ONLY t'',
        outfile = [], pending = [], disk = [], console = []\<rparr>
       ''CREATE INDEX i ON t USING btree (a);\<newline>''
     = Inr \<lparr>create_table_statements = [], alter_table_buffer = [], outfile = [],
            pending = [], disk = [], console = []\<rparr>
   \<and> convert_postgres_to_sqlite (flush_above 8192) [''CREATE INDEX i ON t USING btree (a);'']
       ''out.sql''
     = Inr \<lparr>create_table_statements = [], alter_table_buffer = [],
            outfile = [''CREATE INDEX i ON t (a);\<newline>''], pending = [],
            disk = ''CREATE INDEX i ON t (a);\<newline>'',
            console = [''Conversion complete! SQLite-compatible SQL saved to out.sql'']\<rparr>"
  by code_simp

section \<open>CREATE TABLE without a bare name\<close>

text \<open>
  C10, as amended. A line that is not dropped by rule 1 or rule 6 and whose rewritten
  text starts, after trimming, with \<open>CREATE TABLE\<close> but has no \<open>CREATE TABLE \<close> followed
  by a word character, makes the function raise \<open>AttributeError\<close>, whatever the state.
\<close>

theorem create_table_without_name_raises:
  assumes "\<not> postgres_command line" and "\<not> table_option (rewrite_line line)"
    and "startswith (strip (rewrite_line line)) ''CREATE TABLE''"
    and "search_create_table (rewrite_line line) = None"
  shows "convert_step buffering s line = Inl AttributeError"
  using assms by (simp add: convert_step_def emit_line_def)

text \<open>The theorem at a table name in double quotes.\<close>

theorem create_table_without_name_raises_witness:
  "\<not> postgres_command ''CREATE TABLE \"t\" (\<newline>''
   \<and> \<not> table_option (rewrite_line ''CREATE TABLE \"t\" (\<newline>'')
   \<and> startswith (strip (rewrite_line ''CREATE TABLE \"t\" (\<newline>'')) ''CREATE TABLE''
   \<and> search_create_table (rewrite_line ''CREATE TABLE \"t\" (\<newline>'') = None
   \<and> convert_step (flush_above 8192) initial_conv_state ''CREATE TABLE \"t\" (\<newline>''
       = Inl AttributeError"
proof -
  have h1: "\<not> postgres_command ''CREATE TABLE \"t\" (\<newline>''" by code_simp
  have h2: "\<not> table_option (rewrite_line ''CREATE TABLE \"t\" (\<newline>'')" by code_simp
  have h3: "startswith (strip (rewrite_line ''CREATE TABLE \"t\" (\<newline>'')) ''CREATE TABLE''"
    by code_simp
  have h4: "search_create_table (rewrite_line ''CREATE TABLE \"t\" (\<newline>'') = None"
    by code_simp
  from h1 h2 h3 h4
    create_table_without_name_raises[OF h1 h2 h3 h4, of "flush_above 8192" initial_conv_state]
  show ?thesis by blast
qed

text \<open>
  The claim as stated fails: a line that starts with \<open>CREATE TABLE\<close>, has a quoted name
  and holds a storage option is dropped by rule 6 before the name is looked for, and
  nothing is raised.
\<close>

theorem create_table_with_option_dropped:
  "startswith (strip ''CREATE TABLE \"t\" (id int) WITH (OIDS=FALSE);\<newline>'') ''CREATE TABLE''
   \<and> search_create_table ''CREATE TABLE \"t\" (id int) WITH (OIDS=FALSE);\<newline>'' = None
   \<and> convert_step (flush_above 8192) initial_conv_state
         ''CREATE TABLE \"t\" (id int) WITH (OIDS=FALSE);\<newline>''
       = Inr initial_conv_state"
  by code_simp

section \<open>Statements that fail\<close>












end
